theory Spec2Isabelle
  imports Main "HOL-Library.AList"
begin

section \<open>Python values and exceptions\<close>

text \<open>
  The crawler reads decoded JSON bodies. A decoded body is a Python value: \<open>None\<close>,
  a bool, a number, a \<open>str\<close>, a \<open>list\<close> or a \<open>dict\<close> with string keys. Numbers are
  modelled as integers (prices and unix times); floating point values are outside the model.
\<close>

datatype json =
    JNull
  | JBool bool
  | JInt int
  | JStr string
  | JArr "json list"
  | JObj "(string \<times> json) list"

text \<open>The exceptions the modelled code can raise.\<close>

datatype error =
    TypeError
  | KeyError
  | ValueError
  | JSONDecodeError

text \<open>A call either returns a value or raises.\<close>

datatype 'a result = Returned 'a | Raised error

text \<open>
  \<open>obj[key]\<close> with a string key: a \<open>dict\<close> gives the value or raises \<open>KeyError\<close>
  (\<open>json.loads\<close> keeps the last of several equal keys); every other value, \<open>None\<close>
  among them, raises \<open>TypeError\<close>.
\<close>

fun getitem :: "json \<Rightarrow> string \<Rightarrow> json result" where
  "getitem (JObj kvs) k =
     (case map_of (rev kvs) k of None \<Rightarrow> Raised KeyError | Some v \<Rightarrow> Returned v)"
| "getitem v k = Raised TypeError"

text \<open>Truth value of a Python object, as \<open>if obj:\<close> tests it.\<close>

fun truthy :: "json \<Rightarrow> bool" where
  "truthy JNull = False"
| "truthy (JBool b) = b"
| "truthy (JInt i) = (i \<noteq> 0)"
| "truthy (JStr s) = (s \<noteq> [])"
| "truthy (JArr xs) = (xs \<noteq> [])"
| "truthy (JObj kvs) = (kvs \<noteq> [])"

text \<open>
  \<open>for x in obj\<close>: a list yields its elements, a dict its keys in insertion order (a key
  given twice keeps its first position), a string its characters; the other values are not
  iterable.
\<close>

fun iterate :: "json \<Rightarrow> json list result" where
  "iterate (JArr xs) = Returned xs"
| "iterate (JObj kvs) = Returned (map JStr (rev (remdups (rev (map fst kvs)))))"
| "iterate (JStr s) = Returned (map (\<lambda>c. JStr [c]) s)"
| "iterate v = Raised TypeError"

section \<open>Decimal formatting\<close>

fun str_nat :: "nat \<Rightarrow> string" where
  "str_nat n =
     (if n < 10 then [''0123456789'' ! n]
      else str_nat (n div 10) @ [''0123456789'' ! (n mod 10)])"

declare str_nat.simps [simp del]


text \<open>\<open>'%02d'\<close>, \<open>'%04d'\<close>: zeros on the left up to the width.\<close>

definition zero_pad :: "nat \<Rightarrow> nat \<Rightarrow> string" where
  "zero_pad width n = replicate (width - length (str_nat n)) CHR ''0'' @ str_nat n"

section \<open>Dates (the part of \<open>datetime\<close> the code uses)\<close>

record date =
  year :: nat
  month :: nat
  day :: nat

record datetime =
  dt_date :: date
  hour :: nat
  minute :: nat
  second :: nat

definition is_leap :: "nat \<Rightarrow> bool" where
  "is_leap y =
     (if y mod 400 = 0 then True else if y mod 100 = 0 then False else y mod 4 = 0)"

definition days_in_month :: "nat \<Rightarrow> nat \<Rightarrow> nat" where
  "days_in_month y m =
     (if m = 2 then (if is_leap y then 29 else 28)
      else if m = 4 then 30 else if m = 6 then 30 else if m = 9 then 30
      else if m = 11 then 30 else 31)"

text \<open>
  The constructor \<open>date(year, month, day)\<close>, which \<open>date.replace\<close> calls with the
  replaced fields: \<open>ValueError\<close> unless \<open>1 \<le> year \<le> 9999\<close>, \<open>1 \<le> month \<le> 12\<close>
  and the day exists in that month.
\<close>

definition valid_date :: "nat \<Rightarrow> nat \<Rightarrow> nat \<Rightarrow> bool" where
  "valid_date y m d =
     (1 \<le> y \<and> y \<le> 9999 \<and> 1 \<le> m \<and> m \<le> 12 \<and> 1 \<le> d \<and> d \<le> days_in_month y m)"

definition mk_date :: "nat \<Rightarrow> nat \<Rightarrow> nat \<Rightarrow> date result" where
  "mk_date y m d =
     (if valid_date y m d then Returned \<lparr>year = y, month = m, day = d\<rparr>
      else Raised ValueError)"

text \<open>
  \<open>strftime("%d/%m/%Y")\<close>: day and month on two digits, the year on four (every year
  from 1000 on prints as its four digits on all platforms).
\<close>

definition strftime_dmy :: "date \<Rightarrow> string" where
  "strftime_dmy d =
     zero_pad 2 (day d) @ ''/'' @ zero_pad 2 (month d) @ ''/'' @ zero_pad 4 (year d)"


section \<open>utils.py\<close>

text \<open>
  \<open>get_next_month(cur_date)\<close>: in December \<open>cur_date.replace(year=year + 1, month=1)\<close>,
  otherwise \<open>cur_date.replace(month=month + 1)\<close>. \<open>replace\<close> keeps the fields it is not
  given, so the day of \<open>cur_date\<close> is kept.
\<close>

definition get_next_month :: "date \<Rightarrow> date result" where
  "get_next_month cur_date =
     (if month cur_date = 12 then mk_date (year cur_date + 1) 1 (day cur_date)
      else mk_date (year cur_date) (month cur_date + 1) (day cur_date))"

text \<open>
  \<open>get_date_range()\<close>, with the value of \<open>date.today()\<close> as its argument.
\<close>

definition get_date_range :: "date \<Rightarrow> (string \<times> string) result" where
  "get_date_range today =
     (case get_next_month today of
        Raised e \<Rightarrow> Raised e
      | Returned next_month_date \<Rightarrow>
          Returned (strftime_dmy today, strftime_dmy next_month_date))"

text \<open>
  \<open>datetime.fromtimestamp(ts)\<close> for an integer number of unix seconds, with UTC as the
  local time zone: the day number \<open>ts div 86400\<close> (rounded down) is turned into a date of
  the proleptic Gregorian calendar, the rest into the time of day. A year outside
  \<open>1 .. 9999\<close> raises \<open>ValueError\<close>.
\<close>

definition civil_from_days :: "int \<Rightarrow> int \<times> nat \<times> nat" where
  "civil_from_days z0 =
     (let z = z0 + 719468;
          era = z div 146097;
          doe = z - era * 146097;
          yoe = (doe - doe div 1460 + doe div 36524 - doe div 146096) div 365;
          doy = doe - (365 * yoe + yoe div 4 - yoe div 100);
          mp = (5 * doy + 2) div 153;
          d = doy - (153 * mp + 2) div 5 + 1;
          m = (if mp < 10 then mp + 3 else mp - 9);
          y = yoe + era * 400 + (if m \<le> 2 then 1 else 0)
      in (y, nat m, nat d))"

definition fromtimestamp :: "int \<Rightarrow> datetime result" where
  "fromtimestamp ts =
     (let (y, m, d) = civil_from_days (ts div 86400);
          s = ts mod 86400
      in if 1 \<le> y \<and> y \<le> 9999
         then Returned \<lparr>dt_date = \<lparr>year = nat y, month = m, day = d\<rparr>,
                         hour = nat (s div 3600), minute = nat ((s mod 3600) div 60),
                         second = nat (s mod 60)\<rparr>
         else Raised ValueError)"

section \<open>flight.py\<close>

text \<open>
  The attributes of a \<open>Flight\<close>, with the types its docstring declares. \<open>dep_date\<close> and
  \<open>arr_date\<close> are the class's properties.
\<close>

record flight =
  is_valid :: bool
  booking_token :: string
  fly_from :: string
  fly_to :: string
  price :: int
  dep_time :: datetime
  arr_time :: datetime

definition dep_date :: "flight \<Rightarrow> string" where
  "dep_date f = strftime_dmy (dt_date (dep_time f))"

definition arr_date :: "flight \<Rightarrow> string" where
  "arr_date f = strftime_dmy (dt_date (arr_time f))"

text \<open>Sequencing of calls that may raise.\<close>

definition bind :: "'a result \<Rightarrow> ('a \<Rightarrow> 'b result) \<Rightarrow> 'b result" where
  "bind r k = (case r of Raised e \<Rightarrow> Raised e | Returned x \<Rightarrow> k x)"

text \<open>
  The typing of an attribute: Python stores whatever value the entry holds; the model's
  attributes are typed, and a field that holds a value of another type than the docstring
  of \<open>Flight\<close> declares (a token or a city code that is not a string, a price or a new
  total that is not a number) is reported as \<open>TypeError\<close>.
\<close>

fun the_str :: "json \<Rightarrow> string result" where
  "the_str (JStr s) = Returned s"
| "the_str v = Raised TypeError"

fun the_int :: "json \<Rightarrow> int result" where
  "the_int (JInt i) = Returned i"
| "the_int v = Raised TypeError"

text \<open>
  \<open>Flight.__init__(json_data)\<close>: the six fields are read in the order of the source, a
  missing one raises \<open>KeyError\<close>; \<open>dTime\<close> and \<open>aTime\<close> go through
  \<open>datetime.fromtimestamp\<close>, which raises \<open>TypeError\<close> on a value that is not a number.
\<close>

definition Flight_init :: "json \<Rightarrow> flight result" where
  "Flight_init json_data =
     bind (getitem json_data ''booking_token'') (\<lambda>token.
     bind (getitem json_data ''cityCodeFrom'') (\<lambda>city_from.
     bind (getitem json_data ''cityCodeTo'') (\<lambda>city_to.
     bind (getitem json_data ''price'') (\<lambda>price_value.
     bind (bind (bind (getitem json_data ''dTime'') the_int) fromtimestamp) (\<lambda>dep.
     bind (bind (bind (getitem json_data ''aTime'') the_int) fromtimestamp) (\<lambda>arr.
     bind (the_str token) (\<lambda>token_s.
     bind (the_str city_from) (\<lambda>from_s.
     bind (the_str city_to) (\<lambda>to_s.
     bind (the_int price_value) (\<lambda>price_i.
       Returned \<lparr>is_valid = True, booking_token = token_s, fly_from = from_s,
                 fly_to = to_s, price = price_i, dep_time = dep, arr_time = arr\<rparr>))))))))))"


section \<open>configs.py\<close>

definition FLIGHT_DIRECTIONS :: "(string \<times> string) list" where
  "FLIGHT_DIRECTIONS =
     [(''ALA'', ''TSE''), (''TSE'', ''ALA''), (''ALA'', ''MOW''), (''MOW'', ''ALA''),
      (''ALA'', ''CIT''), (''CIT'', ''ALA''), (''TSE'', ''MOW''), (''MOW'', ''TSE''),
      (''TSE'', ''LED''), (''LED'', ''TSE'')]"

definition DELAY_TIME :: nat where
  "DELAY_TIME = 10"

definition CHECK_FLIGHT_PERIOD :: nat where
  "CHECK_FLIGHT_PERIOD = 900"

definition MAX_TASKS :: nat where
  "MAX_TASKS = 30"

text \<open>\<open>SEARCH_FLIGHT_URL.format(fly_from, fly_to, date_from, date_to)\<close>.\<close>

definition SEARCH_FLIGHT_URL :: "string \<Rightarrow> string \<Rightarrow> string \<Rightarrow> string \<Rightarrow> string" where
  "SEARCH_FLIGHT_URL a b c d =
     ''https://api.skypicker.com/flights?fly_from='' @ a @ ''&fly_to='' @ b @
     ''&date_from='' @ c @ ''&date_to='' @ d @ ''&sort=date&partner=picky&one_per_date=1''"

text \<open>\<open>CHECK_FLIGHT_URL.format(booking_token)\<close>.\<close>

definition CHECK_FLIGHT_URL :: "string \<Rightarrow> string" where
  "CHECK_FLIGHT_URL token =
     ''https://booking-api.skypicker.com/api/v0.1/check_flights?v=2&booking_token='' @
     token @ ''&bnum=1&pnum=1&affily=picky_kz''"

section \<open>main.py: the crawler and its environment\<close>

text \<open>
  What a GET request meets: a response with a success status whose body decodes as JSON,
  one whose body does not, or an \<open>aiohttp.ClientError\<close> (raised by the transport or by
  \<open>raise_for_status\<close> on an error status).
\<close>

datatype http_result =
    Http_json json
  | Http_garbage
  | Http_client_error

text \<open>
  The remote side: the outcome of the \<open>n\<close>-th request of the run (counted from zero),
  sent to a given URL.
\<close>

type_synonym network = "nat \<Rightarrow> string \<Rightarrow> http_result"

text \<open>
  The state the coroutines share. \<open>Flight\<close> objects are mutated in place while the
  dictionary \<open>flights\<close> and the running checks refer to them, so objects live in a store
  and are referred to by their index in it; an object is never freed. \<open>flights\<close> is the
  dictionary in insertion order, from key to object. The remaining fields are the
  crawler's attributes, the content of the output file, the URLs requested so far and the
  delays given to \<open>asyncio.sleep\<close> so far.
\<close>

record world =
  objects :: "flight list"
  flights :: "(string \<times> nat) list"
  date_from :: string
  date_to :: string
  flight_directions :: "(string \<times> string) list"
  output_file :: string
  requested :: "string list"
  slept :: "nat list"

text \<open>
  \<open>Crawler.__init__\<close>, in a process that has requested nothing yet and finds
  \<open>old_file\<close> on disk.
\<close>

definition Crawler_init :: "date \<Rightarrow> string \<Rightarrow> world result" where
  "Crawler_init today old_file =
     bind (get_date_range today) (\<lambda>(df, dt).
       Returned \<lparr>objects = [], flights = [], date_from = df, date_to = dt,
                 flight_directions = FLIGHT_DIRECTIONS, output_file = old_file,
                 requested = [], slept = []\<rparr>)"

text \<open>
  \<open>send_request(url)\<close>: the decoded body; after an \<open>aiohttp.ClientError\<close> the
  \<open>except\<close> clause logs and the function ends without a \<open>return\<close>, which gives \<open>None\<close>.
  The error of \<open>json.loads\<close> is not an \<open>aiohttp.ClientError\<close> and leaves the function.
\<close>

definition send_request :: "network \<Rightarrow> string \<Rightarrow> world \<Rightarrow> json result \<times> world" where
  "send_request net url w =
     (let w' = w\<lparr>requested := requested w @ [url]\<rparr>
      in case net (length (requested w)) url of
           Http_json data \<Rightarrow> (Returned data, w')
         | Http_garbage \<Rightarrow> (Raised JSONDecodeError, w')
         | Http_client_error \<Rightarrow> (Returned JNull, w'))"

text \<open>
  The key of a flight in the dictionary:
  \<open>'-'.join([flight.fly_from, flight.fly_to, str(flight.dep_date)])\<close>.
\<close>

definition flight_key :: "flight \<Rightarrow> string" where
  "flight_key f = fly_from f @ ''-'' @ fly_to f @ ''-'' @ dep_date f"

text \<open>
  The body of the loop of \<open>search_flight\<close> (lines 103 to 108) for one entry of the
  response: the new \<open>Flight\<close> object is created; when the dictionary has the key, the
  object stored there is valid and its price is less than the new one's, the entry is
  skipped (\<open>continue\<close>); otherwise the new object is stored under the key.
\<close>

definition store_entry :: "json \<Rightarrow> world \<Rightarrow> unit result \<times> world" where
  "store_entry json_data w =
     (case Flight_init json_data of
        Raised e \<Rightarrow> (Raised e, w)
      | Returned flight \<Rightarrow>
          (let r = length (objects w);
               w1 = w\<lparr>objects := objects w @ [flight]\<rparr>;
               key = flight_key flight
           in if (case map_of (flights w1) key of
                    None \<Rightarrow> False
                  | Some r0 \<Rightarrow> is_valid (objects w1 ! r0) \<and>
                                price (objects w1 ! r0) < price flight)
              then (Returned (), w1)
              else (Returned (), w1\<lparr>flights := AList.update key r (flights w1)\<rparr>)))"

fun store_entries :: "json list \<Rightarrow> world \<Rightarrow> unit result \<times> world" where
  "store_entries [] w = (Returned (), w)"
| "store_entries (json_data # rest) w =
     (case store_entry json_data w of
        (Raised e, w1) \<Rightarrow> (Raised e, w1)
      | (Returned u, w1) \<Rightarrow> store_entries rest w1)"

text \<open>\<open>search_flight(fly_from, fly_to, date_from, date_to)\<close>.\<close>

definition search_flight ::
  "network \<Rightarrow> string \<Rightarrow> string \<Rightarrow> string \<Rightarrow> string \<Rightarrow> world \<Rightarrow> unit result \<times> world" where
  "search_flight net a b df dt w =
     (case send_request net (SEARCH_FLIGHT_URL a b df dt) w of
        (Raised e, w1) \<Rightarrow> (Raised e, w1)
      | (Returned response_data, w1) \<Rightarrow>
          (case bind (getitem response_data ''data'') iterate of
             Raised e \<Rightarrow> (Raised e, w1)
           | Returned entries \<Rightarrow> store_entries entries w1))"

text \<open>\<open>asyncio.sleep(secs)\<close>.\<close>

definition sleep :: "nat \<Rightarrow> world \<Rightarrow> world" where
  "sleep secs w = w\<lparr>slept := slept w @ [secs]\<rparr>"

text \<open>
  The retry loop of \<open>check_flight\<close> (lines 120 to 126), from a given value of
  \<open>retries\<close>. It has no bound, so it is a partial function: \<open>None\<close> is a loop that runs
  forever. It is left by \<open>break\<close>, with the last \<open>data\<close> and the final \<open>retries\<close>, or
  by an exception of \<open>send_request\<close> or of \<open>data['flights_checked']\<close>. The semaphore
  held around the request has no effect on a check that runs alone.
\<close>

partial_function (option) check_loop ::
  "network \<Rightarrow> string \<Rightarrow> nat \<Rightarrow> world \<Rightarrow> ((json \<times> nat) result \<times> world) option" where
  "check_loop net check_url retries w =
     (case send_request net check_url w of
        (Raised e, w1) \<Rightarrow> Some (Raised e, w1)
      | (Returned data, w1) \<Rightarrow>
          (case getitem data ''flights_checked'' of
             Raised e \<Rightarrow> Some (Raised e, w1)
           | Returned checked \<Rightarrow>
               if truthy checked then Some (Returned (data, retries), w1)
               else check_loop net check_url (retries + 1)
                      (sleep (DELAY_TIME * (retries + 1)) w1)))"

declare check_loop.simps [code]

text \<open>
  What \<open>check_flight\<close> does with the checked \<open>data\<close> (lines 128 to 133), for the
  object \<open>r\<close>.
\<close>

definition after_check :: "network \<Rightarrow> nat \<Rightarrow> json \<Rightarrow> world \<Rightarrow> unit result \<times> world" where
  "after_check net r data w =
     (case getitem data ''flights_invalid'' of
        Raised e \<Rightarrow> (Raised e, w)
      | Returned invalid \<Rightarrow>
          if truthy invalid then
            (let w1 = w\<lparr>objects := (objects w)[r := (objects w ! r)\<lparr>is_valid := False\<rparr>]\<rparr>;
                 flight = objects w1 ! r
             in search_flight net (fly_from flight) (fly_to flight)
                  (dep_date flight) (arr_date flight) w1)
          else
            (case getitem data ''price_change'' of
               Raised e \<Rightarrow> (Raised e, w)
             | Returned change \<Rightarrow>
                 if truthy change then
                   (case bind (getitem data ''total'') the_int of
                      Raised e \<Rightarrow> (Raised e, w)
                    | Returned new_price \<Rightarrow>
                        (Returned (),
                         w\<lparr>objects := (objects w)[r := (objects w ! r)\<lparr>price := new_price\<rparr>]\<rparr>))
                 else (Returned (), w)))"

text \<open>\<open>check_flight(flight)\<close>, for the object \<open>r\<close>.\<close>

definition check_flight :: "network \<Rightarrow> nat \<Rightarrow> world \<Rightarrow> (unit result \<times> world) option" where
  "check_flight net r w =
     (case check_loop net (CHECK_FLIGHT_URL (booking_token (objects w ! r))) 0 w of
        None \<Rightarrow> None
      | Some (Raised e, w1) \<Rightarrow> Some (Raised e, w1)
      | Some (Returned (data, retries), w1) \<Rightarrow> Some (after_check net r data w1))"









section \<open>The dictionary as a value\<close>

text \<open>
  The dictionary with every reference followed: the list of keys, in insertion order, each
  with the flight stored under it.
\<close>

definition store_view :: "world \<Rightarrow> (string \<times> flight) list" where
  "store_view w = map (\<lambda>(key, r). (key, objects w ! r)) (flights w)"




section \<open>Rounds of the retry loop\<close>

text \<open>
  A body reports a checked flight when \<open>data['flights_checked']\<close> is there and true, an
  unchecked one when it is there and false.
\<close>

definition reports_checked :: "json \<Rightarrow> bool" where
  "reports_checked data =
     (case getitem data ''flights_checked'' of Raised e \<Rightarrow> False | Returned c \<Rightarrow> truthy c)"

definition reports_unchecked :: "json \<Rightarrow> bool" where
  "reports_unchecked data =
     (case getitem data ''flights_checked'' of Raised e \<Rightarrow> False | Returned c \<Rightarrow> \<not> truthy c)"

text \<open>The delays of \<open>n\<close> retries after the first \<open>m\<close>: \<open>DELAY_TIME * (m + 1)\<close>, ...\<close>

definition backoff :: "nat \<Rightarrow> nat \<Rightarrow> nat list" where
  "backoff m n = map (\<lambda>j. DELAY_TIME * j) [Suc m..<Suc (m + n)]"

text \<open>
  What an ended loop has done: \<open>n\<close> rounds got an unchecked body, each followed by its
  sleep, and round \<open>n\<close> either got a checked body, which ends the loop by \<open>break\<close>, or
  got no body that reports either way, which ends it by an exception.
\<close>

definition loop_trace :: "network \<Rightarrow> string \<Rightarrow> nat \<Rightarrow> world \<Rightarrow> (json \<times> nat) result \<times> world \<Rightarrow> bool" where
  "loop_trace net url m w y =
     (\<exists>n. (\<forall>i<n. \<exists>d. net (length (requested w) + i) url = Http_json d \<and> reports_unchecked d) \<and>
          snd y = w\<lparr>requested := requested w @ replicate (Suc n) url,
                     slept := slept w @ backoff m n\<rparr> \<and>
          (case fst y of
             Returned (data, n') \<Rightarrow>
               n' = m + n \<and> net (length (requested w) + n) url = Http_json data \<and>
               reports_checked data
           | Raised e \<Rightarrow>
               \<not> (\<exists>d. net (length (requested w) + n) url = Http_json d \<and>
                       (reports_checked d \<or> reports_unchecked d))))"

section \<open>The semaphore and the coroutines\<close>

text \<open>
  Where the coroutines of one process stand with respect to \<open>self.semaphore\<close>. A
  \<open>check_flight\<close> coroutine waits at \<open>async with self.semaphore\<close> (line 121), holds a
  slot while it awaits \<open>send_request\<close> (line 122), leaves the block and then sleeps before
  the next round (line 126), runs the new search (line 130) or ends. A \<open>search_flight\<close>
  coroutine of the daily pass is searching from its start: it never touches the semaphore.
\<close>

datatype phase = Waiting | Fetching | Sleeping | Searching | Finished

text \<open>
  The value of the semaphore, created with \<open>MAX_TASKS\<close> (line 59), and the coroutines.
\<close>

record pool =
  permits :: nat
  tasks :: "phase list"

definition fetching :: "phase list \<Rightarrow> nat" where
  "fetching ts = length (filter (\<lambda>p. p = Fetching) ts)"

definition searching :: "phase list \<Rightarrow> nat" where
  "searching ts = length (filter (\<lambda>p. p = Searching) ts)"

text \<open>\<open>n\<close> checks and \<open>m\<close> searches have been started, none has run yet.\<close>

definition start_pool :: "nat \<Rightarrow> nat \<Rightarrow> pool" where
  "start_pool n m = \<lparr>permits = MAX_TASKS, tasks = replicate n Waiting @ replicate m Searching\<rparr>"

text \<open>
  One step of the event loop. Entering the \<open>async with\<close> block takes a slot and is possible
  only while the value of the semaphore is positive; leaving it, by the end of the request or
  by an exception, gives the slot back. The other steps leave the semaphore alone.
\<close>

inductive step :: "pool \<Rightarrow> pool \<Rightarrow> bool" where
  acquire: "i < length (tasks s) \<Longrightarrow> tasks s ! i = Waiting \<Longrightarrow> 0 < permits s \<Longrightarrow>
            step s \<lparr>permits = permits s - 1, tasks = (tasks s)[i := Fetching]\<rparr>"
| release_retry: "i < length (tasks s) \<Longrightarrow> tasks s ! i = Fetching \<Longrightarrow>
            step s \<lparr>permits = permits s + 1, tasks = (tasks s)[i := Sleeping]\<rparr>"
| release_search: "i < length (tasks s) \<Longrightarrow> tasks s ! i = Fetching \<Longrightarrow>
            step s \<lparr>permits = permits s + 1, tasks = (tasks s)[i := Searching]\<rparr>"
| release_end: "i < length (tasks s) \<Longrightarrow> tasks s ! i = Fetching \<Longrightarrow>
            step s \<lparr>permits = permits s + 1, tasks = (tasks s)[i := Finished]\<rparr>"
| wake: "i < length (tasks s) \<Longrightarrow> tasks s ! i = Sleeping \<Longrightarrow>
            step s \<lparr>permits = permits s, tasks = (tasks s)[i := Waiting]\<rparr>"
| search_end: "i < length (tasks s) \<Longrightarrow> tasks s ! i = Searching \<Longrightarrow>
            step s \<lparr>permits = permits s, tasks = (tasks s)[i := Finished]\<rparr>"

inductive reachable :: "nat \<Rightarrow> nat \<Rightarrow> pool \<Rightarrow> bool" where
  start: "reachable n m (start_pool n m)"
| later: "reachable n m s \<Longrightarrow> step s s' \<Longrightarrow> reachable n m s'"

section \<open>Example data\<close>

text \<open>
  A flight from Almaty to Astana on 20 October 2026, the search entry of such a flight with
  a given booking token and price, and a world whose dictionary holds the flight.
\<close>

definition flight_100 :: flight where
  "flight_100 =
     \<lparr>is_valid = True, booking_token = ''t1'', fly_from = ''ALA'', fly_to = ''TSE'',
      price = 100,
      dep_time = \<lparr>dt_date = \<lparr>year = 2026, month = 10, day = 20\<rparr>,
                  hour = 12, minute = 0, second = 0\<rparr>,
      arr_time = \<lparr>dt_date = \<lparr>year = 2026, month = 10, day = 21\<rparr>,
                  hour = 2, minute = 0, second = 0\<rparr>\<rparr>"


definition example_world :: world where
  "example_world =
     \<lparr>objects = [flight_100], flights = [(''ALA-TSE-20/10/2026'', 0)],
      date_from = ''15/10/2026'', date_to = ''15/11/2026'',
      flight_directions = [(''ALA'', ''TSE''), (''TSE'', ''ALA'')],
      output_file = ''stale'', requested = [], slept = []\<rparr>"

text \<open>A remote side that answers the requests of a run with the given bodies, then fails.\<close>

definition net_of :: "json list \<Rightarrow> network" where
  "net_of bodies n url = (if n < length bodies then Http_json (bodies ! n) else Http_client_error)"

text \<open>Bodies of the check endpoint.\<close>

definition unchecked_response :: json where
  "unchecked_response = JObj [(''flights_checked'', JBool False)]"

definition price_response :: json where
  "price_response =
     JObj [(''flights_checked'', JBool True), (''flights_invalid'', JBool False),
           (''price_change'', JBool True), (''total'', JInt 90)]"

definition invalid_response :: json where
  "invalid_response =
     JObj [(''flights_checked'', JBool True), (''flights_invalid'', JBool True),
           (''price_change'', JBool True), (''total'', JInt 90)]"

definition same_response :: json where
  "same_response =
     JObj [(''flights_checked'', JBool True), (''flights_invalid'', JBool False),
           (''price_change'', JBool False)]"







section \<open>The dictionary seen through the store\<close>










section \<open>What a search leaves alone\<close>

lemma store_entry_frame:
  "output_file (snd (store_entry e w)) = output_file w"
  "requested (snd (store_entry e w)) = requested w"
  "slept (snd (store_entry e w)) = slept w"
  "flight_directions (snd (store_entry e w)) = flight_directions w"
  "date_from (snd (store_entry e w)) = date_from w"
  "date_to (snd (store_entry e w)) = date_to w"
  by (simp_all add: store_entry_def Let_def split: result.splits)

lemma store_entries_frame:
  "output_file (snd (store_entries es w)) = output_file w \<and>
   requested (snd (store_entries es w)) = requested w \<and>
   slept (snd (store_entries es w)) = slept w \<and>
   flight_directions (snd (store_entries es w)) = flight_directions w \<and>
   date_from (snd (store_entries es w)) = date_from w \<and>
   date_to (snd (store_entries es w)) = date_to w"
proof (induction es arbitrary: w)
  case Nil
  show ?case by simp
next
  case (Cons e es)
  obtain res w1 where step: "store_entry e w = (res, w1)" by (cases "store_entry e w")
  have fr: "output_file w1 = output_file w" "requested w1 = requested w" "slept w1 = slept w"
    "flight_directions w1 = flight_directions w" "date_from w1 = date_from w" "date_to w1 = date_to w"
    using store_entry_frame [of e w] step by simp_all
  show ?case
  proof (cases res)
    case (Returned u)
    then show ?thesis using step fr Cons.IH [of w1] by simp
  next
    case (Raised err)
    then show ?thesis using step fr by simp
  qed
qed

lemma send_request_frame:
  "objects (snd (send_request net url w)) = objects w"
  "flights (snd (send_request net url w)) = flights w"
  "output_file (snd (send_request net url w)) = output_file w"
  "requested (snd (send_request net url w)) = requested w @ [url]"
  "slept (snd (send_request net url w)) = slept w"
  "flight_directions (snd (send_request net url w)) = flight_directions w"
  "date_from (snd (send_request net url w)) = date_from w"
  "date_to (snd (send_request net url w)) = date_to w"
  by (simp_all add: send_request_def Let_def split: http_result.splits)


lemma search_flight_frame:
  "output_file (snd (search_flight net a b df dt w)) = output_file w \<and>
   requested (snd (search_flight net a b df dt w)) = requested w @ [SEARCH_FLIGHT_URL a b df dt] \<and>
   slept (snd (search_flight net a b df dt w)) = slept w \<and>
   flight_directions (snd (search_flight net a b df dt w)) = flight_directions w \<and>
   date_from (snd (search_flight net a b df dt w)) = date_from w \<and>
   date_to (snd (search_flight net a b df dt w)) = date_to w"
proof -
  obtain res w1 where s: "send_request net (SEARCH_FLIGHT_URL a b df dt) w = (res, w1)"
    by (cases "send_request net (SEARCH_FLIGHT_URL a b df dt) w")
  have fr: "output_file w1 = output_file w" "requested w1 = requested w @ [SEARCH_FLIGHT_URL a b df dt]"
    "slept w1 = slept w" "flight_directions w1 = flight_directions w"
    "date_from w1 = date_from w" "date_to w1 = date_to w"
    using send_request_frame [of net "SEARCH_FLIGHT_URL a b df dt" w] s by simp_all
  show ?thesis
    using s fr store_entries_frame [of _ w1]
    by (simp add: search_flight_def split: result.splits)
qed


lemma store_entry_objects: "\<exists>xs. objects (snd (store_entry e w)) = objects w @ xs"
  by (cases "Flight_init e") (simp_all add: store_entry_def Let_def)

lemma store_entries_objects: "\<exists>xs. objects (snd (store_entries es w)) = objects w @ xs"
proof (induction es arbitrary: w)
  case Nil
  show ?case by simp
next
  case (Cons e es)
  obtain res w1 where s: "store_entry e w = (res, w1)" by (cases "store_entry e w")
  obtain xs where xs: "objects w1 = objects w @ xs"
    using store_entry_objects [of e w] s by auto
  show ?case
  proof (cases res)
    case (Returned u)
    obtain ys where "objects (snd (store_entries es w1)) = objects w1 @ ys"
      using Cons.IH [of w1] by blast
    then show ?thesis using s xs Returned by simp
  next
    case (Raised err)
    then show ?thesis using s xs by simp
  qed
qed

lemma search_flight_objects:
  "\<exists>xs. objects (snd (search_flight net a b df dt w)) = objects w @ xs"
proof -
  let ?u = "SEARCH_FLIGHT_URL a b df dt"
  obtain res w1 where s: "send_request net ?u w = (res, w1)" by (cases "send_request net ?u w")
  have o: "objects w1 = objects w" using send_request_frame(1) [of net ?u w] s by simp
  show ?thesis
    using s o store_entries_objects [of _ w1]
    by (auto simp: search_flight_def split: result.splits)
qed

lemma search_flight_keeps:
  assumes "r < length (objects w)"
  shows "objects (snd (search_flight net a b df dt w)) ! r = objects w ! r"
proof -
  obtain xs where "objects (snd (search_flight net a b df dt w)) = objects w @ xs"
    using search_flight_objects by blast
  then show ?thesis using assms by (simp add: nth_append)
qed

text \<open>On a body whose \<open>data\<close> is a list, \<open>search_flight\<close> runs the body of its loop on each entry.\<close>

lemma search_flight_runs_body:
  assumes "net (length (requested w)) (SEARCH_FLIGHT_URL a b df dt) =
           Http_json (JObj [(''data'', JArr entries)])"
  shows "search_flight net a b df dt w =
         store_entries entries (w\<lparr>requested := requested w @ [SEARCH_FLIGHT_URL a b df dt]\<rparr>)"
  using assms by (simp add: search_flight_def send_request_def bind_def)

section \<open>Two runs against the same responses\<close>










lemma store_view_output [simp]: "store_view (w\<lparr>output_file := s\<rparr>) = store_view w"
  by (simp add: store_view_def)



section \<open>The retry loop\<close>

lemma check_loop_break:
  assumes "net (length (requested w)) url = Http_json data" "reports_checked data"
  shows "check_loop net url m w = Some (Returned (data, m), w\<lparr>requested := requested w @ [url]\<rparr>)"
  using assms
  by (subst check_loop.simps)
     (simp add: send_request_def reports_checked_def split: result.splits)


lemma backoff_Suc: "backoff m (Suc n) = (DELAY_TIME * Suc m) # backoff (Suc m) n"
  by (simp add: backoff_def upt_rec)


lemma loop_trace_now:
  assumes "snd y = w\<lparr>requested := requested w @ [url]\<rparr>"
    and "case fst y of
           Returned (data, n') \<Rightarrow>
             n' = m \<and> net (length (requested w)) url = Http_json data \<and> reports_checked data
         | Raised e \<Rightarrow>
             \<not> (\<exists>d. net (length (requested w)) url = Http_json d \<and>
                     (reports_checked d \<or> reports_unchecked d))"
  shows "loop_trace net url m w y"
  unfolding loop_trace_def
  using assms by (intro exI [of _ 0]) (auto simp: backoff_def split: result.splits prod.splits)

lemma loop_trace_later:
  assumes d: "net (length (requested w)) url = Http_json d" "reports_unchecked d"
    and tr: "loop_trace net url (Suc m)
               (w\<lparr>requested := requested w @ [url], slept := slept w @ [DELAY_TIME * Suc m]\<rparr>) y"
  shows "loop_trace net url m w y"
proof -
  let ?w = "w\<lparr>requested := requested w @ [url], slept := slept w @ [DELAY_TIME * Suc m]\<rparr>"
  from tr obtain n where
    un: "\<forall>i<n. \<exists>d. net (length (requested ?w) + i) url = Http_json d \<and> reports_unchecked d"
    and w': "snd y = ?w\<lparr>requested := requested ?w @ replicate (Suc n) url,
                          slept := slept ?w @ backoff (Suc m) n\<rparr>"
    and res: "case fst y of
             Returned (data, n') \<Rightarrow>
               n' = Suc m + n \<and> net (length (requested ?w) + n) url = Http_json data \<and>
               reports_checked data
           | Raised e \<Rightarrow>
               \<not> (\<exists>d. net (length (requested ?w) + n) url = Http_json d \<and>
                       (reports_checked d \<or> reports_unchecked d))"
    unfolding loop_trace_def by blast
  have un': "\<forall>i<Suc n. \<exists>d. net (length (requested w) + i) url = Http_json d \<and> reports_unchecked d"
  proof (intro allI impI)
    fix i assume i: "i < Suc n"
    show "\<exists>d. net (length (requested w) + i) url = Http_json d \<and> reports_unchecked d"
    proof (cases i)
      case 0
      then show ?thesis using d by simp
    next
      case (Suc j)
      then have "j < n" using i by simp
      with un obtain d' where
        "net (length (requested ?w) + j) url = Http_json d' \<and> reports_unchecked d'" by blast
      then show ?thesis using Suc by auto
    qed
  qed
  have w'': "snd y = w\<lparr>requested := requested w @ replicate (Suc (Suc n)) url,
                       slept := slept w @ backoff m (Suc n)\<rparr>"
    using w' by (simp add: backoff_Suc replicate_app_Cons_same)
  have res': "case fst y of
             Returned (data, n') \<Rightarrow>
               n' = m + Suc n \<and> net (length (requested w) + Suc n) url = Http_json data \<and>
               reports_checked data
           | Raised e \<Rightarrow>
               \<not> (\<exists>d. net (length (requested w) + Suc n) url = Http_json d \<and>
                       (reports_checked d \<or> reports_unchecked d))"
    using res by (auto split: result.splits prod.splits)
  show ?thesis
    unfolding loop_trace_def using un' w'' res' by blast
qed

lemma check_loop_trace:
  assumes "check_loop net url m w = Some y"
  shows "loop_trace net url m w y"
proof (rule check_loop.raw_induct [where P = loop_trace, OF _ assms])
  fix loop :: "network \<Rightarrow> string \<Rightarrow> nat \<Rightarrow> world \<Rightarrow> ((json \<times> nat) result \<times> world) option"
  fix net url m w y
  assume IH: "\<And>net url m w y. loop net url m w = Some y \<Longrightarrow> loop_trace net url m w y"
  assume body: "(case send_request net url w of
        (Returned data, w1) \<Rightarrow>
          (case getitem data ''flights_checked'' of
             Returned checked \<Rightarrow>
               if truthy checked then Some (Returned (data, m), w1)
               else loop net url (m + 1) (sleep (DELAY_TIME * (m + 1)) w1)
           | Raised e \<Rightarrow> Some (Raised e, w1))
      | (Raised e, w1) \<Rightarrow> Some (Raised e, w1)) = Some y"
  show "loop_trace net url m w y"
  proof (cases "net (length (requested w)) url")
    case (Http_json d)
    show ?thesis
    proof (cases "getitem d ''flights_checked''")
      case (Raised e)
      then have "y = (Raised e, w\<lparr>requested := requested w @ [url]\<rparr>)"
        using body Http_json by (simp add: send_request_def)
      then show ?thesis
        using Http_json Raised
        by (intro loop_trace_now) (simp_all add: reports_checked_def reports_unchecked_def)
    next
      case (Returned c)
      show ?thesis
      proof (cases "truthy c")
        case True
        then have "y = (Returned (d, m), w\<lparr>requested := requested w @ [url]\<rparr>)"
          using body Http_json Returned by (simp add: send_request_def)
        then show ?thesis
          using Http_json Returned True
          by (intro loop_trace_now) (simp_all add: reports_checked_def)
      next
        case False
        then have "loop net url (Suc m)
            (w\<lparr>requested := requested w @ [url], slept := slept w @ [DELAY_TIME * Suc m]\<rparr>) = Some y"
          using body Http_json Returned by (simp add: send_request_def sleep_def)
        then have "loop_trace net url (Suc m)
            (w\<lparr>requested := requested w @ [url], slept := slept w @ [DELAY_TIME * Suc m]\<rparr>) y"
          by (rule IH)
        moreover have "reports_unchecked d"
          using Returned False by (simp add: reports_unchecked_def)
        ultimately show ?thesis
          using Http_json by (intro loop_trace_later [of net w url d])
      qed
    qed
  next
    case Http_garbage
    then have "y = (Raised JSONDecodeError, w\<lparr>requested := requested w @ [url]\<rparr>)"
      using body by (simp add: send_request_def)
    then show ?thesis
      using Http_garbage by (intro loop_trace_now) simp_all
  next
    case Http_client_error
    then have "y = (Raised TypeError, w\<lparr>requested := requested w @ [url]\<rparr>)"
      using body by (simp add: send_request_def)
    then show ?thesis
      using Http_client_error by (intro loop_trace_now) simp_all
  qed
qed

lemma check_loop_world:
  assumes "check_loop net url m w = Some (res, w1)"
  shows "\<exists>n. w1 = w\<lparr>requested := requested w @ replicate (Suc n) url,
                       slept := slept w @ backoff m n\<rparr>"
  using check_loop_trace [OF assms] unfolding loop_trace_def by auto

lemma check_loop_frame:
  assumes "check_loop net url m w = Some (res, w1)"
  shows "objects w1 = objects w" "flights w1 = flights w" "output_file w1 = output_file w"
    "flight_directions w1 = flight_directions w" "date_from w1 = date_from w"
    "date_to w1 = date_to w"
  using check_loop_world [OF assms] by auto


lemma after_check_invalid:
  assumes "getitem data ''flights_invalid'' = Returned invalid" "truthy invalid" "r < length (objects w)"
  shows "objects (snd (after_check net r data w)) ! r = (objects w ! r)\<lparr>is_valid := False\<rparr>"
    and "requested (snd (after_check net r data w)) =
         requested w @ [SEARCH_FLIGHT_URL (fly_from (objects w ! r)) (fly_to (objects w ! r))
                          (dep_date (objects w ! r)) (arr_date (objects w ! r))]"
proof -
  let ?f = "objects w ! r"
  let ?w = "w\<lparr>objects := (objects w)[r := ?f\<lparr>is_valid := False\<rparr>]\<rparr>"
  have f: "objects ?w ! r = ?f\<lparr>is_valid := False\<rparr>" using assms(3) by simp
  have ac: "after_check net r data w =
        search_flight net (fly_from ?f) (fly_to ?f) (dep_date ?f) (arr_date ?f) ?w"
    using assms f by (simp add: after_check_def Let_def dep_date_def arr_date_def)
  have len: "r < length (objects ?w)" using assms(3) by simp
  show "objects (snd (after_check net r data w)) ! r = ?f\<lparr>is_valid := False\<rparr>"
    using search_flight_keeps [OF len] f ac by simp
  show "requested (snd (after_check net r data w)) =
         requested w @ [SEARCH_FLIGHT_URL (fly_from ?f) (fly_to ?f) (dep_date ?f) (arr_date ?f)]"
    using search_flight_frame [of net "fly_from ?f" "fly_to ?f" "dep_date ?f" "arr_date ?f" ?w] ac
    by simp
qed



section \<open>Gathered tasks\<close>




section \<open>The semaphore\<close>

lemma fetching_update:
  "i < length ts \<Longrightarrow>
   fetching (ts[i := p]) + (if ts ! i = Fetching then 1 else 0) =
   fetching ts + (if p = Fetching then 1 else 0)"
proof (induction ts arbitrary: i)
  case Nil
  then show ?case by simp
next
  case (Cons t ts)
  show ?case
  proof (cases i)
    case 0
    then show ?thesis by (simp add: fetching_def)
  next
    case (Suc j)
    then have "j < length ts" using Cons.prems by simp
    then have "fetching (ts[j := p]) + (if ts ! j = Fetching then 1 else 0) =
               fetching ts + (if p = Fetching then 1 else 0)" by (rule Cons.IH)
    then show ?thesis using Suc by (auto simp: fetching_def split: if_splits)
  qed
qed

lemma step_invariant:
  assumes "step s s'" "permits s + fetching (tasks s) = MAX_TASKS"
  shows "permits s' + fetching (tasks s') = MAX_TASKS"
  using assms
proof (cases rule: step.cases)
  case (acquire i)
  then show ?thesis using assms(2) fetching_update [of i "tasks s" Fetching] by simp
next
  case (release_retry i)
  then show ?thesis using assms(2) fetching_update [of i "tasks s" Sleeping] by simp
next
  case (release_search i)
  then show ?thesis using assms(2) fetching_update [of i "tasks s" Searching] by simp
next
  case (release_end i)
  then show ?thesis using assms(2) fetching_update [of i "tasks s" Finished] by simp
next
  case (wake i)
  then show ?thesis using assms(2) fetching_update [of i "tasks s" Waiting] by simp
next
  case (search_end i)
  then show ?thesis using assms(2) fetching_update [of i "tasks s" Finished] by simp
qed

lemma reachable_invariant:
  "reachable n m s \<Longrightarrow> permits s + fetching (tasks s) = MAX_TASKS"
proof (induction rule: reachable.induct)
  case (start n m)
  show ?case by (simp add: start_pool_def fetching_def)
next
  case (later n m s s')
  then show ?case using step_invariant by blast
qed

lemma burst_reachable:
  "k \<le> MAX_TASKS \<Longrightarrow> k \<le> n \<Longrightarrow>
   reachable n m \<lparr>permits = MAX_TASKS - k,
                  tasks = replicate k Fetching @ replicate (n - k) Waiting @ replicate m Searching\<rparr>"
proof (induction k)
  case 0
  show ?case using reachable.start [of n m] by (simp add: start_pool_def)
next
  case (Suc k)
  let ?s = "\<lparr>permits = MAX_TASKS - k,
            tasks = replicate k Fetching @ replicate (n - k) Waiting @ replicate m Searching\<rparr>"
  have r: "reachable n m ?s" using Suc by simp
  have w: "replicate (n - k) Waiting = Waiting # replicate (n - Suc k) Waiting"
    using Suc.prems(2) by (cases "n - k") simp_all
  have i: "k < length (tasks ?s)" "tasks ?s ! k = Waiting" "0 < permits ?s"
    using Suc.prems w by (simp_all add: nth_append)
  have u: "(tasks ?s)[k := Fetching] =
           replicate (Suc k) Fetching @ replicate (n - Suc k) Waiting @ replicate m Searching"
    using w list_update_length [of "replicate k Fetching" Waiting _ Fetching]
    by (simp add: replicate_app_Cons_same)
  have "step ?s \<lparr>permits = permits ?s - 1, tasks = (tasks ?s)[k := Fetching]\<rparr>"
    using i by (rule step.acquire)
  then have "step ?s \<lparr>permits = MAX_TASKS - Suc k,
      tasks = replicate (Suc k) Fetching @ replicate (n - Suc k) Waiting @ replicate m Searching\<rparr>"
    using u by simp
  with r show ?case by (rule reachable.later)
qed

section \<open>The examples, evaluated\<close>





lemma example_fields:
  "objects example_world = [flight_100]" "requested example_world = []"
  "slept example_world = []" "output_file example_world = ''stale''"
  "flights example_world = [(''ALA-TSE-20/10/2026'', 0)]"
  "flight_directions example_world = [(''ALA'', ''TSE''), (''TSE'', ''ALA'')]"
  "booking_token flight_100 = ''t1''" "fly_from flight_100 = ''ALA''" "fly_to flight_100 = ''TSE''"
  "price flight_100 = 100"
  by (simp_all add: example_world_def flight_100_def)

lemma responses_checked:
  "reports_unchecked unchecked_response" "reports_checked price_response"
  "reports_checked invalid_response" "reports_checked same_response"
  by (simp_all add: reports_unchecked_def reports_checked_def unchecked_response_def
        price_response_def invalid_response_def same_response_def)

lemma loop_example:
  assumes "reports_checked d"
  shows "check_loop (net_of (d # rest)) (CHECK_FLIGHT_URL (booking_token flight_100)) 0 example_world =
         Some (Returned (d, 0), example_world\<lparr>requested := [CHECK_FLIGHT_URL ''t1'']\<rparr>)"
  using check_loop_break [of "net_of (d # rest)" example_world "CHECK_FLIGHT_URL ''t1''" d 0] assms
  by (simp add: net_of_def example_fields)

lemma getitem_examples:
  "getitem invalid_response ''flights_invalid'' = Returned (JBool True)"
  "getitem price_response ''flights_invalid'' = Returned (JBool False)"
  "getitem same_response ''flights_invalid'' = Returned (JBool False)"
  "getitem price_response ''price_change'' = Returned (JBool True)"
  "getitem same_response ''price_change'' = Returned (JBool False)"
  "getitem price_response ''total'' = Returned (JInt 90)"
  by (simp_all add: invalid_response_def price_response_def same_response_def)

lemma dates_example:
  "dep_date flight_100 = ''20/10/2026''" "arr_date flight_100 = ''21/10/2026''"
proof -
  have "strftime_dmy \<lparr>year = 2026, month = 10, day = 20\<rparr> = ''20/10/2026''" by code_simp
  moreover have "strftime_dmy \<lparr>year = 2026, month = 10, day = 21\<rparr> = ''21/10/2026''" by code_simp
  ultimately show "dep_date flight_100 = ''20/10/2026''" "arr_date flight_100 = ''21/10/2026''"
    by (simp_all add: dep_date_def arr_date_def flight_100_def)
qed






section \<open>The claims\<close>



text \<open>
  Claim C2. When every request fails with an \<open>aiohttp.ClientError\<close>, \<open>send_request\<close>
  returns \<open>None\<close> without raising, and \<open>search_flight\<close> then raises \<open>TypeError\<close> at
  \<open>response_data['data']\<close>, for every route, every window and every world: the route search
  does not complete normally.
\<close>

theorem fetch_failure_breaks_search:
  "send_request (\<lambda>n url. Http_client_error) url w =
     (Returned JNull, w\<lparr>requested := requested w @ [url]\<rparr>) \<and>
   search_flight (\<lambda>n url. Http_client_error) a b df dt w =
     (Raised TypeError, w\<lparr>requested := requested w @ [SEARCH_FLIGHT_URL a b df dt]\<rparr>)"
  by (simp add: send_request_def search_flight_def bind_def)




text \<open>
  Claim C4. On 15 October 2026 \<open>get_date_range\<close> returns \<open>15/10/2026\<close> and
  \<open>15/11/2026\<close>, the same day of the next month and not its first day; on 31 January
  2026 it raises \<open>ValueError\<close>, since February has no day 31.
\<close>

theorem next_month_keeps_day:
  "get_date_range \<lparr>year = 2026, month = 10, day = 15\<rparr> =
     Returned (''15/10/2026'', ''15/11/2026'') \<and>
   get_date_range \<lparr>year = 2026, month = 1, day = 31\<rparr> = Raised ValueError"
  by code_simp





text \<open>
  Claim C7. In every state that the coroutines reach from a start with \<open>n\<close> checks and
  \<open>m\<close> searches, whatever \<open>n\<close> and \<open>m\<close> are, at most \<open>MAX_TASKS\<close> checks are inside the
  \<open>async with\<close> block, where the request is awaited: the value of the semaphore plus their
  number is \<open>MAX_TASKS\<close>. The searches are not bounded: at the start all \<open>m\<close> of them are
  running while the semaphore has its full value.
\<close>

theorem limiter_bound:
  assumes "reachable n m s"
  shows "fetching (tasks s) \<le> MAX_TASKS \<and> permits s + fetching (tasks s) = MAX_TASKS \<and>
         searching (tasks (start_pool n m)) = m \<and> permits (start_pool n m) = MAX_TASKS"
  using reachable_invariant [OF assms] by (simp add: start_pool_def searching_def)

text \<open>
  On the example: of 31 checks started together, 30 hold a slot and one waits, the
  semaphore being at zero.
\<close>

theorem limiter_bound_witness:
  "reachable 31 0 \<lparr>permits = 0, tasks = replicate 30 Fetching @ [Waiting]\<rparr> \<and>
   fetching (replicate 30 Fetching @ [Waiting]) \<le> MAX_TASKS \<and>
   fetching (replicate 30 Fetching @ [Waiting]) = 30"
proof -
  have "reachable 31 0 \<lparr>permits = MAX_TASKS - 30,
          tasks = replicate 30 Fetching @ replicate (31 - 30) Waiting @ replicate 0 Searching\<rparr>"
    by (rule burst_reachable) (simp_all add: MAX_TASKS_def)
  then have r: "reachable 31 0 \<lparr>permits = 0, tasks = replicate 30 Fetching @ [Waiting]\<rparr>"
    by (simp add: MAX_TASKS_def)
  show ?thesis
    using limiter_bound [OF r] r by (simp add: MAX_TASKS_def)
qed



text \<open>
  Claim C9. When the checked body has a true \<open>flights_invalid\<close>, \<open>check_flight\<close> leaves
  the object equal to the flight \<open>f\<close> it was given with \<open>is_valid\<close> set to false: its price
  and its other fields are those of \<open>f\<close>, whatever \<open>price_change\<close> and \<open>total\<close> the body
  holds and however the new search ends.
\<close>

theorem invalid_takes_precedence:
  assumes loop: "check_loop net (CHECK_FLIGHT_URL (booking_token f)) 0 w =
                 Some (Returned (data, n), w1)"
    and f: "objects w ! r = f" and r: "r < length (objects w)"
    and inv: "getitem data ''flights_invalid'' = Returned invalid" "truthy invalid"
  shows "\<exists>res w'. check_flight net r w = Some (res, w') \<and>
           objects w' ! r = f\<lparr>is_valid := False\<rparr> \<and> price (objects w' ! r) = price f"
proof -
  have cf: "check_flight net r w = Some (after_check net r data w1)"
    using loop f by (simp add: check_flight_def)
  have o1: "objects w1 = objects w"
    using check_loop_frame [OF loop] by simp
  have r1: "r < length (objects w1)" and f1: "objects w1 ! r = f"
    using r f o1 by simp_all
  have "objects (snd (after_check net r data w1)) ! r = f\<lparr>is_valid := False\<rparr>"
    using after_check_invalid(1) [OF inv r1, of net] f1 by simp
  then show ?thesis
    using cf
    by (intro exI [of _ "fst (after_check net r data w1)"]
              exI [of _ "snd (after_check net r data w1)"]) simp
qed

text \<open>
  On the example: the body also says that the price changed to 90; the price stays 100.
\<close>

theorem invalid_takes_precedence_witness:
  "\<exists>res w'. check_flight (net_of [invalid_response]) 0 example_world = Some (res, w') \<and>
      objects w' ! 0 = flight_100\<lparr>is_valid := False\<rparr> \<and> price (objects w' ! 0) = 100"
proof -
  have o: "objects example_world ! 0 = flight_100" "0 < length (objects example_world)"
    by (simp_all add: example_fields)
  have t: "truthy (JBool True)" by simp
  show ?thesis
    using invalid_takes_precedence [OF loop_example o getitem_examples(1) t, of "[]",
        OF responses_checked(3)]
    by (simp add: example_fields)
qed

text \<open>
  Claim C10. When the checked body has a true \<open>flights_invalid\<close>, \<open>check_flight\<close> is the
  call of \<open>search_flight\<close> with the route of the flight, its departure date as
  \<open>date_from\<close> and its arrival date as \<open>date_to\<close>, both formatted by
  \<open>strftime("%d/%m/%Y")\<close>, and the last URL it requests is the search URL of these four
  values. The attributes \<open>date_from\<close> and \<open>date_to\<close> of the crawler do not occur.
\<close>

theorem research_window:
  assumes loop: "check_loop net (CHECK_FLIGHT_URL (booking_token f)) 0 w =
                 Some (Returned (data, n), w1)"
    and f: "objects w ! r = f" and r: "r < length (objects w)"
    and inv: "getitem data ''flights_invalid'' = Returned invalid" "truthy invalid"
  shows "check_flight net r w =
           Some (search_flight net (fly_from f) (fly_to f)
                   (strftime_dmy (dt_date (dep_time f))) (strftime_dmy (dt_date (arr_time f)))
                   (w1\<lparr>objects := (objects w1)[r := f\<lparr>is_valid := False\<rparr>]\<rparr>)) \<and>
         (\<exists>res w'. check_flight net r w = Some (res, w') \<and>
            last (requested w') =
              SEARCH_FLIGHT_URL (fly_from f) (fly_to f)
                (strftime_dmy (dt_date (dep_time f))) (strftime_dmy (dt_date (arr_time f))))"
proof -
  have cf: "check_flight net r w = Some (after_check net r data w1)"
    using loop f by (simp add: check_flight_def)
  have o1: "objects w1 = objects w"
    using check_loop_frame [OF loop] by simp
  have r1: "r < length (objects w1)" and f1: "objects w1 ! r = f"
    using r f o1 by simp_all
  have ac: "after_check net r data w1 =
      search_flight net (fly_from f) (fly_to f)
                   (strftime_dmy (dt_date (dep_time f))) (strftime_dmy (dt_date (arr_time f)))
                   (w1\<lparr>objects := (objects w1)[r := f\<lparr>is_valid := False\<rparr>]\<rparr>)"
    using inv r1 f1 by (simp add: after_check_def Let_def dep_date_def arr_date_def)
  have "requested (snd (after_check net r data w1)) =
        requested w1 @ [SEARCH_FLIGHT_URL (fly_from f) (fly_to f) (dep_date f) (arr_date f)]"
    using after_check_invalid(2) [OF inv r1, of net] f1 by simp
  then have "last (requested (snd (after_check net r data w1))) =
      SEARCH_FLIGHT_URL (fly_from f) (fly_to f)
                (strftime_dmy (dt_date (dep_time f))) (strftime_dmy (dt_date (arr_time f)))"
    by (simp add: dep_date_def arr_date_def)
  then show ?thesis
    using cf ac
    by (intro conjI exI [of _ "fst (after_check net r data w1)"]
              exI [of _ "snd (after_check net r data w1)"]) simp_all
qed

text \<open>
  On the example: the crawler's window is 15/10/2026 to 15/11/2026, the search asks for
  20/10/2026 to 21/10/2026.
\<close>

theorem research_window_witness:
  "date_from example_world = ''15/10/2026'' \<and> date_to example_world = ''15/11/2026'' \<and>
   (\<exists>res w'. check_flight (net_of [invalid_response, JObj [(''data'', JArr [])]]) 0 example_world =
        Some (res, w') \<and>
      last (requested w') =
        SEARCH_FLIGHT_URL ''ALA'' ''TSE'' ''20/10/2026'' ''21/10/2026'')"
proof -
  have o: "objects example_world ! 0 = flight_100" "0 < length (objects example_world)"
    by (simp_all add: example_fields)
  have t: "truthy (JBool True)" by simp
  have d: "strftime_dmy (dt_date (dep_time flight_100)) = ''20/10/2026''"
    "strftime_dmy (dt_date (arr_time flight_100)) = ''21/10/2026''"
    using dates_example by (simp_all add: dep_date_def arr_date_def)
  have w: "date_from example_world = ''15/10/2026''" "date_to example_world = ''15/11/2026''"
    by (simp_all add: example_world_def)
  show ?thesis
    using research_window [OF loop_example o getitem_examples(1) t,
        of "[JObj [(''data'', JArr [])]]", OF responses_checked(3), THEN conjunct2] w
    by (simp add: example_fields d)
qed

end
